theory Spec2Isabelle
  imports Main "HOL-Library.AList"
begin

section \<open>JavaScript values and strings\<close>

text \<open>
  The namespace \<open>Cookie\<close> of \<open>src/js-cookie.js\<close> is embedded function by function.
  A JavaScript string is a \<open>string\<close>: one \<open>char\<close> per code unit, so the model covers
  the strings whose code units are below 256.  The values that reach the functions are
  \<open>undefined\<close> (an omitted argument, a missing array element or property), \<open>null\<close>,
  booleans, numbers and strings; a number is an integer (no fraction, no NaN, magnitude
  below \<open>10^21\<close>, where JavaScript prints plain decimal digits).
\<close>

datatype jsval = Undefined | Null | Bool bool | Num int | Str string

text \<open>ToBoolean: what \<open>if (x)\<close>, \<open>!x\<close> and \<open>x || y\<close> test.\<close>

fun truthy :: "jsval \<Rightarrow> bool" where
  "truthy Undefined = False"
| "truthy Null = False"
| "truthy (Bool b) = b"
| "truthy (Num n) = (n \<noteq> 0)"
| "truthy (Str s) = (s \<noteq> [])"

text \<open>\<open>a || b\<close>: the left operand when it is truthy, the right one otherwise.\<close>

definition js_or :: "jsval \<Rightarrow> jsval \<Rightarrow> jsval" where
  "js_or a b = (if truthy a then a else b)"

text \<open>The decimal digits of a natural number.\<close>

fun digits :: "nat \<Rightarrow> string" where
  "digits n = (if n < 10 then [char_of (48 + n)] else digits (n div 10) @ [char_of (48 + n mod 10)])"

declare digits.simps [simp del]

text \<open>ToString: what \<open>+\<close> applies to an operand when the other one is a string.\<close>

fun to_string :: "jsval \<Rightarrow> string" where
  "to_string Undefined = ''undefined''"
| "to_string Null = ''null''"
| "to_string (Bool b) = (if b then ''true'' else ''false'')"
| "to_string (Num n) = (if n < 0 then CHR ''-'' # digits (nat (- n)) else digits (nat n))"
| "to_string (Str s) = s"

text \<open>
  \<open>a[i]\<close> on an array of strings: the element, or \<open>undefined\<close> past the end (JavaScript
  does not raise there).
\<close>

definition index :: "string list \<Rightarrow> nat \<Rightarrow> jsval" where
  "index a i = (if i < length a then Str (a ! i) else Undefined)"

text \<open>
  A plain object is the list of its own properties in insertion order, and \<open>o.k\<close> is
  \<open>js_prop o k\<close>.  The assignment \<open>o[k] = v\<close> is \<open>assign_prop k v o\<close>: an existing key keeps
  its place and a new key goes last, but the key \<open>__proto__\<close> is never made.  On an object
  created by \<open>{}\<close> that name is the accessor of \<open>Object.prototype\<close>, whose setter is called
  instead; it ignores a string and \<open>undefined\<close>, and no value gives the object an own
  property.  (The prototype itself is not modelled.)
\<close>

type_synonym object = "(string \<times> jsval) list"

text \<open>
  \<open>for (var k in o)\<close> on a plain object visits the keys that are array indices first
  (canonical decimal numerals below \<open>2^32 - 1\<close>), by ascending value, and then the other
  keys in insertion order.
\<close>

definition is_digit :: "char \<Rightarrow> bool" where
  "is_digit c = (48 \<le> (of_char c :: nat) \<and> (of_char c :: nat) \<le> 57)"

definition index_value :: "string \<Rightarrow> nat" where
  "index_value s = foldl (\<lambda>n c. 10 * n + (of_char c - 48)) 0 s"

definition is_array_index :: "string \<Rightarrow> bool" where
  "is_array_index s =
     (case s of
        [] \<Rightarrow> False
      | c # r \<Rightarrow> list_all is_digit s \<and> (r = [] \<or> c \<noteq> CHR ''0'') \<and> index_value s < 2 ^ 32 - 1)"

definition for_in_keys :: "(string \<times> 'a) list \<Rightarrow> string list" where
  "for_in_keys obj =
     (let ks = map fst obj
      in sort_key index_value (filter is_array_index ks) @ filter (\<lambda>k. \<not> is_array_index k) ks)"

definition js_prop :: "object \<Rightarrow> string \<Rightarrow> jsval" where
  "js_prop obj k = (case map_of obj k of Some v \<Rightarrow> v | None \<Rightarrow> Undefined)"

definition assign_prop :: "string \<Rightarrow> jsval \<Rightarrow> object \<Rightarrow> object" where
  "assign_prop k v obj = (if k = ''__proto__'' then obj else AList.update k v obj)"

section \<open>The two splits\<close>

text \<open>The class \<open>\s\<close> of a regular expression, among the code units below 256.\<close>

definition is_space :: "char \<Rightarrow> bool" where
  "is_space c = (c \<in> {CHR 0x09, CHR 0x0A, CHR 0x0B, CHR 0x0C, CHR 0x0D, CHR 0x20, CHR 0xA0})"

text \<open>
  A match of \<open>/\s*;\s*/\<close> anchored at the start of \<open>s\<close>: the text after the match.
  Both stars are greedy, and giving back white space cannot help the first one, since
  what follows a shorter run is white space and not the semicolon.
\<close>

definition match_delimiter :: "string \<Rightarrow> string option" where
  "match_delimiter s =
     (case dropWhile is_space s of
        [] \<Rightarrow> None
      | c # r \<Rightarrow> if c = CHR '';'' then Some (dropWhile is_space r) else None)"

text \<open>
  \<open>S.split(/\s*;\s*/g)\<close>.  The split of ECMAScript keeps the end \<open>p\<close> of the last match
  and tries the pattern at every position \<open>q \<ge> p\<close> from left to right; here \<open>t\<close> is the
  text from \<open>p\<close> to \<open>q\<close> and the second argument the text from \<open>q\<close> on.  A match is never
  empty, and the text after the last match is the last element.
\<close>

function split_delimiter :: "string \<Rightarrow> string \<Rightarrow> string list" where
  "split_delimiter t [] = [t]"
| "split_delimiter t (c # r) =
     (case match_delimiter (c # r) of
        Some rest \<Rightarrow> t # split_delimiter [] rest
      | None \<Rightarrow> split_delimiter (t @ [c]) r)"
  by pat_completeness auto
termination
proof (relation "measure (\<lambda>(t, s). length s)")
  show "wf (measure (\<lambda>(t, s). length s))" by simp
next
  fix t :: string and c r rest
  assume "match_delimiter (c # r) = Some rest"
  then obtain r' where "dropWhile is_space (c # r) = CHR '';'' # r'"
    and rest: "rest = dropWhile is_space r'"
    by (auto simp: match_delimiter_def split: list.splits if_splits)
  then have "length (CHR '';'' # r') \<le> length (c # r)"
    by (metis length_dropWhile_le)
  moreover have "length rest \<le> length r'"
    unfolding rest by (rule length_dropWhile_le)
  ultimately show "(([], rest), (t, c # r)) \<in> measure (\<lambda>(t, s). length s)"
    by simp
next
  fix t :: string and c r
  show "((t @ [c], r), (t, c # r)) \<in> measure (\<lambda>(t, s). length s)" by simp
qed

text \<open>\<open>S.split(sep)\<close> for a separator of one character: every occurrence splits.\<close>

fun split_char :: "char \<Rightarrow> string \<Rightarrow> string \<Rightarrow> string list" where
  "split_char sep t [] = [t]"
| "split_char sep t (c # r) =
     (if c = sep then t # split_char sep [] r else split_char sep (t @ [c]) r)"

section \<open>Reading\<close>

text \<open>
  \<open>get\<close> and \<open>getAll\<close> read \<open>document.cookie\<close> and nothing else: the string that the
  property yields is their first argument.
\<close>

text \<open>
  The loop of \<open>get\<close>: \<open>for (var i in keyValuePairs)\<close> visits the indices of the array in
  ascending order, and \<open>===\<close> on two values of the model is their equality.
\<close>

fun get_loop :: "string list \<Rightarrow> jsval \<Rightarrow> jsval" where
  "get_loop [] key = Null"
| "get_loop (kv # keyValuePairs) key =
     (let pair = split_char CHR ''='' [] kv
      in if index pair 0 = key then index pair 1 else get_loop keyValuePairs key)"

definition get :: "string \<Rightarrow> jsval \<Rightarrow> jsval" where
  "get cookie key =
     (if cookie = [] then Null else get_loop (split_delimiter [] cookie) key)"

text \<open>
  \<open>getAll\<close>: \<open>forEach\<close> visits the segments in order, and \<open>result[pair[0]] = pair[1]\<close>
  assigns a string or \<open>undefined\<close> under a name that is a string.
\<close>

definition getAll :: "string \<Rightarrow> object" where
  "getAll cookie =
     (if cookie = [] then []
      else fold (\<lambda>v result.
                   let pair = split_char CHR ''='' [] v
                   in assign_prop (to_string (index pair 0)) (index pair 1) result)
             (split_delimiter [] cookie) [])"

section \<open>The host's cookie property\<close>

text \<open>
  Modelled from the spec: the host's storage behind \<open>document.cookie\<close>, which is not code
  of the repository.  The spec describes it in sections 3, 4.1 and 6: reading yields the
  cookies as \<open>key=value\<close> pairs joined by a semicolon, and an assignment takes the attribute
  string of one cookie and upserts that one cookie, or deletes it when its \<open>expires\<close> is the
  zero timestamp.  The model keeps one scope: every cookie is readable, the attributes
  \<open>path\<close>, \<open>domain\<close>, \<open>max-age\<close>, \<open>secure\<close> and \<open>samesite\<close> are accepted and not interpreted,
  every write is accepted, and no date but the zero timestamp counts as past.

  \<open>jar\<close> is the store, a name and a value per cookie, oldest first.  \<open>assigned\<close> is the
  list of the strings assigned to the property so far, oldest first: the host does not
  keep it, it is here so that a theorem can say what a function has written.
\<close>

record document =
  jar :: "(string \<times> string) list"
  assigned :: "string list"

text \<open>
  Modelled from the spec: the string that reading \<open>document.cookie\<close> yields, the pairs
  \<open>key=value\<close> joined by a semicolon and a space.
\<close>

fun cookie_string :: "(string \<times> string) list \<Rightarrow> string" where
  "cookie_string [] = []"
| "cookie_string [(n, v)] = n @ ''='' @ v"
| "cookie_string ((n, v) # c # cs) = n @ ''='' @ v @ ''; '' @ cookie_string (c # cs)"

definition document_cookie :: "document \<Rightarrow> string" where
  "document_cookie d = cookie_string (jar d)"

text \<open>
  \<open>zeroDate.toUTCString()\<close> for the date whose time value \<open>setTime(0)\<close> has set to 0.
\<close>

definition zeroDate_toUTCString :: string where
  "zeroDate_toUTCString = ''Thu, 01 Jan 1970 00:00:00 GMT''"

text \<open>
  Modelled from the spec: the assignment \<open>document.cookie = str\<close>.  The text before the
  first semicolon is the cookie, its name the text before the first \<open>=\<close> and its value the
  text after it; the other segments are the attributes.  A cookie of that name is replaced
  where it stands, a new one goes last.
\<close>

definition assign_cookie :: "string \<Rightarrow> document \<Rightarrow> document" where
  "assign_cookie str d =
     (case split_char CHR '';'' [] str of
        [] \<Rightarrow> d
      | nv # attributes \<Rightarrow>
          let name = takeWhile (\<lambda>c. c \<noteq> CHR ''='') nv;
              val = drop 1 (dropWhile (\<lambda>c. c \<noteq> CHR ''='') nv)
          in d\<lparr>jar := (if ''expires='' @ zeroDate_toUTCString \<in> set attributes
                        then AList.delete name (jar d)
                        else AList.update name val (jar d)),
                assigned := assigned d @ [str]\<rparr>)"

section \<open>Writing\<close>

text \<open>
  Every writer takes the document and returns it updated, beside its result.  \<open>set\<close> is
  \<open>set_cookie\<close> here, since \<open>set\<close> is the set of a list in HOL.
\<close>

definition set_cookie ::
  "jsval \<Rightarrow> jsval \<Rightarrow> jsval \<Rightarrow> jsval \<Rightarrow> jsval \<Rightarrow> jsval \<Rightarrow> jsval \<Rightarrow> jsval \<Rightarrow> document
     \<Rightarrow> jsval \<times> document" where
  "set_cookie key val path expires maxAge domain secure samesite d =
     (let path = js_or path (Str ''/'');
          expires = js_or expires (Str []);
          maxAge = js_or maxAge (Str []);
          domain = js_or domain (Str []);
          secure = js_or secure (Bool False);
          samesite = js_or samesite (Bool False);
          oldValue = get (document_cookie d) key;
          str = to_string key @ ''='' @ to_string val @ '';path='' @ to_string path @ '';'';
          str = (if truthy expires then str @ ''expires='' @ to_string expires @ '';'' else str);
          str = (if truthy maxAge then str @ ''max-age='' @ to_string maxAge @ '';'' else str);
          str = (if truthy domain then str @ ''domain='' @ to_string domain @ '';'' else str);
          str = (if truthy secure then str @ ''secure;'' else str);
          str = (if truthy samesite then str @ ''samesite;'' else str)
      in (oldValue, assign_cookie str d))"

text \<open>\<open>Cookie.set(key, value)\<close>: a call with two arguments leaves the other six \<open>undefined\<close>.\<close>

abbreviation set_kv :: "jsval \<Rightarrow> jsval \<Rightarrow> document \<Rightarrow> jsval \<times> document" where
  "set_kv key val d \<equiv>
     set_cookie key val Undefined Undefined Undefined Undefined Undefined Undefined d"

text \<open>\<open>Cookie.set(key, object[key])\<close> for every key of the object.\<close>

definition setAsMap :: "object \<Rightarrow> document \<Rightarrow> document" where
  "setAsMap obj d =
     fold (\<lambda>key d. snd (set_cookie (Str key) (js_prop obj key)
                          Undefined Undefined Undefined Undefined Undefined Undefined d))
       (for_in_keys obj) d"

definition setAsArray :: "object list \<Rightarrow> document \<Rightarrow> document" where
  "setAsArray array d =
     fold (\<lambda>curObject d. snd (set_cookie
                                (js_prop curObject ''key'')
                                (js_prop curObject ''value'')
                                (js_prop curObject ''path'')
                                (js_prop curObject ''expires'')
                                (js_prop curObject ''maxAge'')
                                (js_prop curObject ''domain'')
                                (js_prop curObject ''secure'')
                                (js_prop curObject ''samesite'') d))
       array d"

definition unset :: "jsval \<Rightarrow> document \<Rightarrow> jsval \<times> document" where
  "unset key d =
     (let oldValue = get (document_cookie d) key
      in (oldValue,
          assign_cookie (to_string key @ ''='' @ '';expires='' @ zeroDate_toUTCString @ '';path=/'') d))"

definition clear :: "document \<Rightarrow> document" where
  "clear d =
     (let cookies = getAll (document_cookie d)
      in fold (\<lambda>key d. snd (unset (Str key) d)) (for_in_keys cookies) d)"

section \<open>Well-formed keys, values and stores\<close>

text \<open>
  \<open>plain\<close>: a key or value free of the semicolon, of \<open>=\<close> and of white space, as the
  round-trip properties of the spec require of what is written.
\<close>

definition plain :: "string \<Rightarrow> bool" where
  "plain s = (\<forall>c \<in> set s. c \<noteq> CHR '';'' \<and> c \<noteq> CHR ''='' \<and> \<not> is_space c)"

text \<open>
  A well-formed store: no name and no value holds a semicolon or starts or ends with
  white space, and no name holds \<open>=\<close> (a value may).  Section 3 of the spec has the string
  read be a sequence of \<open>key=value\<close> pairs, keys without \<open>=\<close> and \<open>;\<close>, values without \<open>;\<close>;
  the writes of plain keys and values keep a store well formed (\<open>wf_jar_set_kv\<close>,
  \<open>wf_jar_unset\<close>).
\<close>

definition no_edge_space :: "string \<Rightarrow> bool" where
  "no_edge_space s = (s = [] \<or> (\<not> is_space (hd s) \<and> \<not> is_space (last s)))"

definition wf_name :: "string \<Rightarrow> bool" where
  "wf_name n = (CHR '';'' \<notin> set n \<and> CHR ''='' \<notin> set n \<and> no_edge_space n)"

definition wf_value :: "string \<Rightarrow> bool" where
  "wf_value v = (CHR '';'' \<notin> set v \<and> no_edge_space v)"

definition wf_jar :: "(string \<times> string) list \<Rightarrow> bool" where
  "wf_jar j = (\<forall>(n, v) \<in> set j. wf_name n \<and> wf_value v)"

text \<open>One cookie of the store as the string read shows it.\<close>

definition entry :: "string \<times> string \<Rightarrow> string" where
  "entry p = fst p @ ''='' @ snd p"

text \<open>
  \<open>pair[0]\<close> as a property key and \<open>pair[1]\<close>, for \<open>pair = v.split("=")\<close>: the name and
  the value that \<open>get\<close> and \<open>getAll\<close> read in a segment \<open>v\<close>.
\<close>

definition name_of :: "string \<Rightarrow> string" where
  "name_of v = to_string (index (split_char CHR ''='' [] v) 0)"

definition value_of :: "string \<Rightarrow> jsval" where
  "value_of v = index (split_char CHR ''='' [] v) 1"

text \<open>
  The string that \<open>set\<close> builds from the properties of one entry of the array of
  \<open>setAsArray\<close>: a shorthand for the proofs, the theorem on \<open>setAsArray\<close> has it written out.
\<close>

definition attribute_string_of :: "object \<Rightarrow> string" where
  "attribute_string_of curObject =
     to_string (js_prop curObject ''key'') @ ''='' @ to_string (js_prop curObject ''value'') @
     '';path='' @ (if truthy (js_prop curObject ''path'')
                   then to_string (js_prop curObject ''path'') else ''/'') @ '';'' @
     (if truthy (js_prop curObject ''expires'')
      then ''expires='' @ to_string (js_prop curObject ''expires'') @ '';'' else []) @
     (if truthy (js_prop curObject ''maxAge'')
      then ''max-age='' @ to_string (js_prop curObject ''maxAge'') @ '';'' else []) @
     (if truthy (js_prop curObject ''domain'')
      then ''domain='' @ to_string (js_prop curObject ''domain'') @ '';'' else []) @
     (if truthy (js_prop curObject ''secure'') then ''secure;'' else []) @
     (if truthy (js_prop curObject ''samesite'') then ''samesite;'' else [])"

section \<open>Facts about the splits and the host's string\<close>

lemma split_char_no_sep: "sep \<notin> set u \<Longrightarrow> split_char sep t u = [t @ u]"
  by (induction u arbitrary: t) auto

lemma split_char_at_sep:
  "sep \<notin> set u \<Longrightarrow> split_char sep t (u @ sep # r) = (t @ u) # split_char sep [] r"
  by (induction u arbitrary: t) auto

lemma split_char_takeWhile:
  "\<exists>rest. split_char sep t s = (t @ takeWhile (\<lambda>c. c \<noteq> sep) s) # rest"
proof (induction s arbitrary: t)
  case Nil
  show ?case by simp
next
  case (Cons a s)
  show ?case
  proof (cases "a = sep")
    case True
    then show ?thesis by simp
  next
    case False
    with Cons [of "t @ [a]"] show ?thesis by simp
  qed
qed

lemma index_0_split_char:
  "index (split_char sep [] s) 0 = Str (takeWhile (\<lambda>c. c \<noteq> sep) s)"
  using split_char_takeWhile [of sep "[]" s] by (auto simp: index_def)

lemma match_delimiter_inside:
  assumes "CHR '';'' \<notin> set w" "w \<noteq> []" "\<not> is_space (last w)"
  shows "match_delimiter (w @ r) = None"
proof -
  have "last w \<in> set w" using assms(2) by simp
  with assms(3) have 1: "dropWhile is_space (w @ r) = dropWhile is_space w @ r"
    by (metis dropWhile_append1)
  have "dropWhile is_space w \<noteq> []"
    using assms(2,3) \<open>last w \<in> set w\<close> by (auto simp: dropWhile_eq_Nil_conv)
  then obtain c u where 2: "dropWhile is_space w = c # u" by (cases "dropWhile is_space w") auto
  then have "c \<in> set w" by (metis list.set_intros(1) set_dropWhileD)
  with assms(1) have "c \<noteq> CHR '';''" by auto
  with 1 2 show ?thesis by (simp add: match_delimiter_def)
qed

lemma split_delimiter_chunk:
  "CHR '';'' \<notin> set u \<Longrightarrow> u = [] \<or> \<not> is_space (last u) \<Longrightarrow>
   split_delimiter t (u @ r) = split_delimiter (t @ u) r"
proof (induction u arbitrary: t)
  case Nil
  show ?case by simp
next
  case (Cons c u)
  from Cons.prems have "match_delimiter ((c # u) @ r) = None"
    by (intro match_delimiter_inside) auto
  moreover from Cons.prems have "CHR '';'' \<notin> set u" "u = [] \<or> \<not> is_space (last u)"
    by (auto split: if_splits)
  ultimately show ?case using Cons.IH [of "t @ [c]"] by simp
qed

lemma not_space_semicolon: "\<not> is_space CHR '';''" "is_space CHR '' ''" "\<not> is_space CHR ''=''"
  by (simp_all add: is_space_def)

lemma split_delimiter_sep:
  "split_delimiter t (CHR '';'' # CHR '' '' # r) = t # split_delimiter [] (dropWhile is_space r)"
  by (simp add: match_delimiter_def not_space_semicolon)

lemma cookie_string_Cons:
  "cookie_string (p # ps) = entry p @ (if ps = [] then [] else ''; '' @ cookie_string ps)"
  by (cases p; cases ps) (auto simp: entry_def)

lemma entry_wf:
  assumes "wf_name n" "wf_value v"
  shows "CHR '';'' \<notin> set (entry (n, v))" and "\<not> is_space (last (entry (n, v)))"
    and "\<not> is_space (hd (entry (n, v)))"
proof -
  show "CHR '';'' \<notin> set (entry (n, v))"
    using assms by (simp add: entry_def wf_name_def wf_value_def)
  show "\<not> is_space (last (entry (n, v)))"
    using assms by (cases "v = []")
      (auto simp: entry_def wf_value_def no_edge_space_def not_space_semicolon)
  show "\<not> is_space (hd (entry (n, v)))"
    using assms by (cases "n = []")
      (auto simp: entry_def wf_name_def no_edge_space_def not_space_semicolon)
qed

lemma entry_not_Nil: "entry p \<noteq> []"
  by (simp add: entry_def)

lemma dropWhile_space_cookie_string:
  "wf_jar j \<Longrightarrow> dropWhile is_space (cookie_string j) = cookie_string j"
proof (cases j)
  case Nil
  then show ?thesis by simp
next
  case (Cons p ps)
  assume wf: "wf_jar j"
  obtain n v where p: "p = (n, v)" by (cases p)
  from wf Cons p have "wf_name n" "wf_value v" by (simp_all add: wf_jar_def)
  then have "\<not> is_space (hd (entry p))" unfolding p by (rule entry_wf)
  moreover obtain c e where "entry p = c # e" using entry_not_Nil [of p] by (cases "entry p") auto
  ultimately show ?thesis by (simp add: Cons cookie_string_Cons)
qed

lemma split_delimiter_cookie_string:
  "wf_jar (p # ps) \<Longrightarrow>
   split_delimiter t (cookie_string (p # ps)) = (t @ entry p) # map entry ps"
proof (induction ps arbitrary: p t)
  case Nil
  obtain n v where p: "p = (n, v)" by (cases p)
  from Nil p have "wf_name n" "wf_value v" by (simp_all add: wf_jar_def)
  then have "CHR '';'' \<notin> set (entry p)" "\<not> is_space (last (entry p))"
    unfolding p by (rule entry_wf)+
  then have "split_delimiter t (entry p @ []) = split_delimiter (t @ entry p) []"
    by (intro split_delimiter_chunk) simp_all
  then show ?case by (simp add: cookie_string_Cons)
next
  case (Cons q qs)
  obtain n v where p: "p = (n, v)" by (cases p)
  from Cons.prems p have "wf_name n" "wf_value v" by (simp_all add: wf_jar_def)
  then have "CHR '';'' \<notin> set (entry p)" "\<not> is_space (last (entry p))"
    unfolding p by (rule entry_wf)+
  then have chunk: "split_delimiter t (entry p @ r) = split_delimiter (t @ entry p) r" for r
    by (intro split_delimiter_chunk) simp_all
  from Cons.prems have wf: "wf_jar (q # qs)" by (simp add: wf_jar_def)
  have "split_delimiter t (cookie_string (p # q # qs)) =
        split_delimiter (t @ entry p) (CHR '';'' # CHR '' '' # cookie_string (q # qs))"
    using chunk [of "CHR '';'' # CHR '' '' # cookie_string (q # qs)"]
    by (simp add: cookie_string_Cons [of p])
  also have "\<dots> = (t @ entry p) # split_delimiter [] (cookie_string (q # qs))"
    by (simp only: split_delimiter_sep dropWhile_space_cookie_string [OF wf])
  also have "split_delimiter [] (cookie_string (q # qs)) = entry q # map entry qs"
    using Cons.IH [OF wf, of "[]"] by simp
  finally show ?case by simp
qed

lemma split_char_entry:
  "CHR ''='' \<notin> set n \<Longrightarrow>
   split_char CHR ''='' [] (entry (n, v)) = n # split_char CHR ''='' [] v"
  using split_char_at_sep [of "CHR ''=''" n "[]" v] by (simp add: entry_def)

lemma index_Cons: "index (x # xs) 0 = Str x" "index (x # xs) (Suc i) = index xs i"
  by (simp_all add: index_def)

lemma get_loop_entries:
  "\<forall>(n, v) \<in> set j. CHR ''='' \<notin> set n \<Longrightarrow>
   get_loop (map entry j) (Str k) =
     (case map_of j k of None \<Rightarrow> Null | Some v \<Rightarrow> Str (takeWhile (\<lambda>c. c \<noteq> CHR ''='') v))"
proof (induction j)
  case Nil
  show ?case by simp
next
  case (Cons p j)
  obtain n v where p: "p = (n, v)" by (cases p)
  with Cons.prems have n: "CHR ''='' \<notin> set n" by simp
  from Cons have IH: "get_loop (map entry j) (Str k) =
     (case map_of j k of None \<Rightarrow> Null | Some v \<Rightarrow> Str (takeWhile (\<lambda>c. c \<noteq> CHR ''='') v))"
    by simp
  show ?case
    by (simp add: p split_char_entry [OF n] index_Cons index_0_split_char IH Let_def)
qed

lemma wf_jar_names: "wf_jar j \<Longrightarrow> \<forall>(n, v) \<in> set j. CHR ''='' \<notin> set n"
  by (auto simp: wf_jar_def wf_name_def)

lemma get_cookie_string:
  assumes "wf_jar j"
  shows "get (cookie_string j) (Str k) =
     (case map_of j k of None \<Rightarrow> Null | Some v \<Rightarrow> Str (takeWhile (\<lambda>c. c \<noteq> CHR ''='') v))"
proof (cases j)
  case Nil
  then show ?thesis by (simp add: get_def)
next
  case (Cons p ps)
  have ne: "cookie_string (p # ps) \<noteq> []"
    by (simp add: cookie_string_Cons entry_def)
  have "get (cookie_string j) (Str k) = get_loop (map entry j) (Str k)"
    using assms split_delimiter_cookie_string [of p ps "[]"] ne
    by (simp add: Cons get_def)
  then show ?thesis using get_loop_entries [OF wf_jar_names [OF assms]] by simp
qed

lemma takeWhile_plain: "plain v \<Longrightarrow> takeWhile (\<lambda>c. c \<noteq> CHR ''='') v = v"
  by (simp add: plain_def)

lemma plain_imp_wf_name: "plain k \<Longrightarrow> wf_name k"
  by (cases k) (auto simp: plain_def wf_name_def no_edge_space_def)

lemma plain_imp_wf_value: "plain v \<Longrightarrow> wf_value v"
  by (cases v) (auto simp: plain_def wf_value_def no_edge_space_def)

lemma name_of_pair:
  "CHR ''='' \<notin> set k \<Longrightarrow> takeWhile (\<lambda>c. c \<noteq> CHR ''='') (k @ CHR ''='' # v) = k"
  "CHR ''='' \<notin> set k \<Longrightarrow> drop 1 (dropWhile (\<lambda>c. c \<noteq> CHR ''='') (k @ CHR ''='' # v)) = v"
  by (induction k) auto

lemma assign_cookie_pair:
  assumes "CHR '';'' \<notin> set k" "CHR ''='' \<notin> set k" "CHR '';'' \<notin> set v"
  shows "assign_cookie (k @ ''='' @ v @ CHR '';'' # attrs) d =
     d\<lparr>jar := (if ''expires='' @ zeroDate_toUTCString \<in> set (split_char CHR '';'' [] attrs)
               then AList.delete k (jar d) else AList.update k v (jar d)),
       assigned := assigned d @ [k @ ''='' @ v @ CHR '';'' # attrs]\<rparr>"
proof -
  have "CHR '';'' \<notin> set (k @ CHR ''='' # v)" using assms by simp
  from split_char_at_sep [OF this, of "[]" attrs]
  have "split_char CHR '';'' [] (k @ ''='' @ v @ CHR '';'' # attrs) =
        (k @ CHR ''='' # v) # split_char CHR '';'' [] attrs" by simp
  then show ?thesis
    using name_of_pair [OF assms(2), of v] by (simp add: assign_cookie_def Let_def)
qed

lemma default_attrs:
  "''expires='' @ zeroDate_toUTCString \<notin> set (split_char CHR '';'' [] ''path=/;'')"
  by (simp add: zeroDate_toUTCString_def)

lemma unset_attrs:
  "''expires='' @ zeroDate_toUTCString
     \<in> set (split_char CHR '';'' [] (''expires='' @ zeroDate_toUTCString @ '';path=/''))"
  by (simp add: zeroDate_toUTCString_def)

lemma set_cookie_default:
  "set_kv (Str k) (Str v) d =
     (get (document_cookie d) (Str k), assign_cookie (k @ ''='' @ v @ '';path=/;'') d)"
  by (simp add: set_cookie_def js_or_def Let_def)

lemma jar_set_cookie_default:
  assumes "wf_name k" "wf_value v"
  shows "jar (snd (set_kv (Str k) (Str v) d)) = AList.update k v (jar d)"
proof -
  from assms have "CHR '';'' \<notin> set k" "CHR ''='' \<notin> set k" "CHR '';'' \<notin> set v"
    by (simp_all add: wf_name_def wf_value_def)
  from assign_cookie_pair [OF this, of "''path=/;''" d] default_attrs show ?thesis
    by (simp add: set_cookie_default)
qed

lemma jar_unset:
  assumes "wf_name k"
  shows "jar (snd (unset (Str k) d)) = AList.delete k (jar d)"
proof -
  from assms have "CHR '';'' \<notin> set k" "CHR ''='' \<notin> set k" "CHR '';'' \<notin> set []"
    by (simp_all add: wf_name_def)
  from assign_cookie_pair [OF this, of "''expires='' @ zeroDate_toUTCString @ '';path=/''" d]
    unset_attrs
  show ?thesis by (simp add: unset_def Let_def)
qed

lemma wf_jar_update: "wf_jar j \<Longrightarrow> wf_name k \<Longrightarrow> wf_value v \<Longrightarrow> wf_jar (AList.update k v j)"
  by (induction j) (auto simp: wf_jar_def)

lemma wf_jar_delete: "wf_jar j \<Longrightarrow> wf_jar (AList.delete k j)"
  by (induction j) (auto simp: wf_jar_def)

subsection \<open>What the readers compute\<close>

lemma name_of_takeWhile: "name_of v = takeWhile (\<lambda>c. c \<noteq> CHR ''='') v"
  by (simp add: name_of_def index_0_split_char)

lemma index_0_name_of: "index (split_char CHR ''='' [] v) 0 = Str (name_of v)"
  by (simp add: name_of_takeWhile index_0_split_char)

lemma value_of_cases: "value_of v = Undefined \<or> (\<exists>s. value_of v = Str s)"
  by (simp add: value_of_def index_def)

lemma get_loop_find:
  "get_loop segs key =
     (case find (\<lambda>v. Str (name_of v) = key) segs of None \<Rightarrow> Null | Some v \<Rightarrow> value_of v)"
  by (induction segs) (simp_all add: Let_def index_0_name_of value_of_def)

lemma get_find:
  "get cookie key =
     (if cookie = [] then Null
      else case find (\<lambda>v. Str (name_of v) = key) (split_delimiter [] cookie) of
             None \<Rightarrow> Null | Some v \<Rightarrow> value_of v)"
  by (simp add: get_def get_loop_find)

lemma getAll_fold:
  "getAll cookie =
     (if cookie = [] then []
      else fold (\<lambda>v. assign_prop (name_of v) (value_of v)) (split_delimiter [] cookie) [])"
  by (simp add: getAll_def name_of_def value_of_def Let_def)

lemma map_of_assign_prop:
  "n \<noteq> ''__proto__'' \<Longrightarrow>
   map_of (assign_prop k v obj) n = (if k = n then Some v else map_of obj n)"
  by (simp add: assign_prop_def update_conv')

lemma keys_assign_prop:
  "fst ` set (assign_prop k v obj) = fst ` set obj \<union> ({k} - {''__proto__''})"
  by (auto simp: assign_prop_def dom_update)

lemma distinct_assign_prop:
  "distinct (map fst obj) \<Longrightarrow> distinct (map fst (assign_prop k v obj))"
  by (simp add: assign_prop_def distinct_update)

lemma map_of_fold_assign:
  "n \<noteq> ''__proto__'' \<Longrightarrow>
   map_of (fold (\<lambda>v. assign_prop (f v) (g v)) segs acc) n =
     (case filter (\<lambda>v. f v = n) segs of [] \<Rightarrow> map_of acc n | x # xs \<Rightarrow> Some (g (last (x # xs))))"
proof (induction segs arbitrary: acc)
  case Nil
  show ?case by simp
next
  case (Cons s segs)
  show ?case
  proof (cases "f s = n")
    case True
    with Cons.prems show ?thesis
      by (simp add: Cons.IH map_of_assign_prop split: list.splits)
  next
    case False
    with Cons.prems show ?thesis
      by (simp add: Cons.IH map_of_assign_prop split: list.splits)
  qed
qed

lemma keys_fold_assign:
  "fst ` set (fold (\<lambda>v. assign_prop (f v) (g v)) segs acc) =
     fst ` set acc \<union> (f ` set segs - {''__proto__''})"
proof (induction segs arbitrary: acc)
  case Nil
  show ?case by simp
next
  case (Cons s segs)
  have "fst ` set (fold (\<lambda>v. assign_prop (f v) (g v)) (s # segs) acc) =
        fst ` set (assign_prop (f s) (g s) acc) \<union> (f ` set segs - {''__proto__''})"
    by (simp add: Cons.IH)
  also have "\<dots> = fst ` set acc \<union> (f ` set (s # segs) - {''__proto__''})"
    unfolding keys_assign_prop by auto
  finally show ?case .
qed

lemma distinct_fold_assign:
  "distinct (map fst acc) \<Longrightarrow> distinct (map fst (fold (\<lambda>v. assign_prop (f v) (g v)) segs acc))"
  by (induction segs arbitrary: acc) (simp_all add: distinct_assign_prop)

text \<open>
  Last assignment wins in \<open>getAll\<close>: a name other than \<open>__proto__\<close> is mapped to \<open>pair[1]\<close>
  of the last segment of that name.
\<close>

lemma getAll_last_segment:
  assumes "cookie \<noteq> []" and "n \<in> name_of ` set (split_delimiter [] cookie)"
    and "n \<noteq> ''__proto__''"
  shows "map_of (getAll cookie) n =
     Some (value_of (last (filter (\<lambda>v. name_of v = n) (split_delimiter [] cookie))))"
proof -
  from assms(2) have "filter (\<lambda>v. name_of v = n) (split_delimiter [] cookie) \<noteq> []"
    by (auto simp: filter_empty_conv)
  then show ?thesis
    using assms(1,3)
    by (simp add: getAll_fold map_of_fold_assign split: list.splits)
qed

text \<open>On every string read, \<open>get\<close> returns \<open>null\<close>, \<open>undefined\<close> or a string.\<close>

lemma get_result:
  "get cookie key \<in> {Null, Undefined} \<union> range Str"
proof (cases "find (\<lambda>v. Str (name_of v) = key) (split_delimiter [] cookie)")
  case None
  then show ?thesis by (simp add: get_find)
next
  case (Some w)
  then show ?thesis using value_of_cases [of w] by (auto simp: get_find)
qed

subsection \<open>What a write stores and returns\<close>

lemma split_char_not_Nil: "split_char sep t s \<noteq> []"
  using split_char_takeWhile [of sep t s] by auto

lemma assigned_assign_cookie: "assigned (assign_cookie str d) = assigned d @ [str]"
  using split_char_not_Nil [of "CHR '';''" "[]" str]
  by (cases "split_char CHR '';'' [] str") (simp_all add: assign_cookie_def Let_def)

lemma fst_set_cookie:
  "fst (set_cookie key val path expires maxAge domain secure samesite d) =
     get (document_cookie d) key"
  by (simp add: set_cookie_def Let_def)

lemma fst_unset: "fst (unset key d) = get (document_cookie d) key"
  by (simp add: unset_def Let_def)

lemma assigned_unset:
  "assigned (snd (unset key d)) =
     assigned d @ [to_string key @ ''=;expires=Thu, 01 Jan 1970 00:00:00 GMT;path=/'']"
  by (simp add: unset_def Let_def assigned_assign_cookie zeroDate_toUTCString_def)

lemma get_update:
  assumes "wf_jar j" "plain k" "plain v"
  shows "get (cookie_string (AList.update k v j)) (Str k) = Str v"
proof -
  have "wf_jar (AList.update k v j)"
    using assms by (simp add: wf_jar_update plain_imp_wf_name plain_imp_wf_value)
  from get_cookie_string [OF this, of k] show ?thesis
    by (simp add: update_conv' takeWhile_plain [OF assms(3)])
qed

lemma get_delete:
  assumes "wf_jar j"
  shows "get (cookie_string (AList.delete k j)) (Str k) = Null"
  using get_cookie_string [OF wf_jar_delete [OF assms], of k k] by (simp add: delete_conv')

lemma get_absent:
  assumes "wf_jar j" "k \<notin> fst ` set j"
  shows "get (cookie_string j) (Str k) = Null"
proof -
  from assms(2) have "map_of j k = None" by (simp add: map_of_eq_None_iff)
  with get_cookie_string [OF assms(1), of k] show ?thesis by simp
qed

text \<open>The empty store is well formed, and the writes of plain keys and values keep it so.\<close>

lemma wf_jar_Nil: "wf_jar []"
  by (simp add: wf_jar_def)

lemma wf_jar_set_kv:
  "wf_jar (jar d) \<Longrightarrow> wf_name k \<Longrightarrow> wf_value v \<Longrightarrow>
   wf_jar (jar (snd (set_kv (Str k) (Str v) d)))"
  by (simp add: jar_set_cookie_default wf_jar_update)

lemma wf_jar_unset: "wf_jar (jar d) \<Longrightarrow> wf_name k \<Longrightarrow> wf_jar (jar (snd (unset (Str k) d)))"
  by (simp add: jar_unset wf_jar_delete)

subsection \<open>What clear assigns and leaves\<close>

lemma name_of_entry: "CHR ''='' \<notin> set n \<Longrightarrow> name_of (entry (n, v)) = n"
  using name_of_pair(1) [of n v] by (simp add: name_of_takeWhile entry_def)

lemma keys_getAll_cookie_string:
  assumes "wf_jar j"
  shows "set (map fst (getAll (cookie_string j))) = fst ` set j - {''__proto__''}"
proof (cases j)
  case Nil
  then show ?thesis by (simp add: getAll_def)
next
  case (Cons p ps)
  have ne: "cookie_string (p # ps) \<noteq> []"
    by (simp add: cookie_string_Cons entry_def)
  have sd: "split_delimiter [] (cookie_string j) = map entry j"
    using assms split_delimiter_cookie_string [of p ps "[]"] by (simp add: Cons)
  have "name_of (entry q) = fst q" if "q \<in> set j" for q
  proof -
    obtain n v where q: "q = (n, v)" by (cases q)
    with that wf_jar_names [OF assms] have "CHR ''='' \<notin> set n" by auto
    then show ?thesis by (simp add: q name_of_entry)
  qed
  then have "(\<lambda>q. name_of (entry q)) ` set j = fst ` set j"
    by (intro image_cong) simp_all
  then have "name_of ` set (map entry j) = fst ` set j"
    by (simp add: image_image)
  then show ?thesis
    using ne by (simp add: getAll_fold Cons [symmetric] sd keys_fold_assign)
qed

lemma distinct_keys_getAll: "distinct (map fst (getAll cookie))"
  by (simp add: getAll_fold distinct_fold_assign)

lemma set_for_in_keys: "set (for_in_keys obj) = fst ` set obj"
  by (auto simp: for_in_keys_def Let_def)

lemma distinct_for_in_keys: "distinct (map fst obj) \<Longrightarrow> distinct (for_in_keys obj)"
  by (auto simp: for_in_keys_def Let_def)

lemma for_in_keys_ab: "for_in_keys [(''a'', x), (''b'', y)] = [''a'', ''b'']"
  by (simp add: for_in_keys_def is_array_index_def is_digit_def)

text \<open>The order of the loop on an object with numeric keys.\<close>

lemma for_in_keys_example:
  "for_in_keys [(''b'', x), (''10'', x), (''2'', x), (''01'', x), (''0'', x)] =
     [''0'', ''2'', ''10'', ''b'', ''01'']"
  by (simp add: for_in_keys_def is_array_index_def is_digit_def index_value_def)

lemma assigned_fold_unset:
  "assigned (fold (\<lambda>key d. snd (unset (Str key) d)) ks d) =
     assigned d @ map (\<lambda>key. key @ ''=;expires=Thu, 01 Jan 1970 00:00:00 GMT;path=/'') ks"
  by (induction ks arbitrary: d) (simp_all add: assigned_unset)

lemma jar_fold_unset:
  "\<forall>k \<in> set ks. wf_name k \<Longrightarrow>
   jar (fold (\<lambda>key d. snd (unset (Str key) d)) ks d) = filter (\<lambda>p. fst p \<notin> set ks) (jar d)"
proof (induction ks arbitrary: d)
  case Nil
  show ?case by simp
next
  case (Cons k ks)
  then have k: "wf_name k" and ks: "\<forall>k \<in> set ks. wf_name k" by simp_all
  have "AList.delete k j = filter (\<lambda>p. fst p \<noteq> k) j" for j :: "(string \<times> string) list"
    by (induction j) auto
  then show ?case
    using Cons.IH [OF ks, of "snd (unset (Str k) d)"]
    by (simp add: jar_unset [OF k] conj_commute)
qed

text \<open>
  \<open>clear\<close> removes every cookie that \<open>getAll\<close> shows; a cookie named \<open>__proto__\<close> is not
  among them and stays.
\<close>

lemma jar_clear:
  assumes "wf_jar (jar d)"
  shows "jar (clear d) = filter (\<lambda>p. fst p = ''__proto__'') (jar d)"
proof -
  let ?ks = "for_in_keys (getAll (document_cookie d))"
  have keys: "set ?ks = fst ` set (jar d) - {''__proto__''}"
    unfolding document_cookie_def set_for_in_keys
    using keys_getAll_cookie_string [OF assms] by simp
  have "\<forall>k \<in> set ?ks. wf_name k"
    unfolding keys using assms by (auto simp: wf_jar_def)
  then have "jar (clear d) = filter (\<lambda>p. fst p \<notin> set ?ks) (jar d)"
    by (simp add: clear_def Let_def jar_fold_unset)
  also have "\<dots> = filter (\<lambda>p. fst p = ''__proto__'') (jar d)"
    unfolding keys by (rule filter_cong) auto
  finally show ?thesis .
qed

lemma getAll_clear:
  assumes "wf_jar (jar d)"
  shows "getAll (document_cookie (clear d)) = []"
proof -
  let ?j = "filter (\<lambda>p. fst p = ''__proto__'') (jar d)"
  have "wf_jar ?j" using assms by (auto simp: wf_jar_def)
  from keys_getAll_cookie_string [OF this]
  have "set (map fst (getAll (cookie_string ?j))) = {}" by auto
  then have "getAll (cookie_string ?j) = []" by simp
  then show ?thesis by (simp add: document_cookie_def jar_clear [OF assms])
qed

lemma jar_setAsMap_ab:
  "jar (setAsMap [(''a'', Str ''1''), (''b'', Str ''2'')] d) =
     AList.update ''b'' ''2'' (AList.update ''a'' ''1'' (jar d))"
proof -
  have a: "wf_name ''a''" and b: "wf_name ''b''" and 1: "wf_value ''1''" and 2: "wf_value ''2''"
    by (simp_all add: wf_name_def wf_value_def no_edge_space_def is_space_def)
  show ?thesis
    by (simp add: setAsMap_def js_prop_def for_in_keys_ab jar_set_cookie_default [OF a 1]
        jar_set_cookie_default [OF b 2])
qed

subsection \<open>What set and setAsArray assign\<close>

lemma assigned_set_cookie:
  "assigned (snd (set_cookie key val path expires maxAge domain secure samesite d)) =
     assigned d @
       [to_string key @ ''='' @ to_string val @
        '';path='' @ (if truthy path then to_string path else ''/'') @ '';'' @
        (if truthy expires then ''expires='' @ to_string expires @ '';'' else []) @
        (if truthy maxAge then ''max-age='' @ to_string maxAge @ '';'' else []) @
        (if truthy domain then ''domain='' @ to_string domain @ '';'' else []) @
        (if truthy secure then ''secure;'' else []) @
        (if truthy samesite then ''samesite;'' else [])]"
  by (simp add: set_cookie_def js_or_def Let_def assigned_assign_cookie)

lemma assigned_setAsArray:
  "assigned (setAsArray array d) = assigned d @ map attribute_string_of array"
proof (induction array arbitrary: d)
  case Nil
  show ?case by (simp add: setAsArray_def)
next
  case (Cons curObject array)
  have "setAsArray (curObject # array) d =
        setAsArray array (snd (set_cookie
          (js_prop curObject ''key'') (js_prop curObject ''value'') (js_prop curObject ''path'')
          (js_prop curObject ''expires'') (js_prop curObject ''maxAge'')
          (js_prop curObject ''domain'') (js_prop curObject ''secure'')
          (js_prop curObject ''samesite'') d))"
    by (simp add: setAsArray_def)
  then show ?case
    by (simp only: Cons.IH assigned_set_cookie attribute_string_of_def list.map append_assoc
        append_Cons append_Nil)
qed

subsection \<open>Round trips of plain keys and values\<close>

text \<open>
  For a key and values free of the semicolon, of \<open>=\<close> and of white space, on a well-formed
  store, a second \<open>set\<close> and an \<open>unset\<close> return the value written before.
\<close>

lemma set_twice_plain:
  assumes "wf_jar (jar d)" "plain k" "plain v1" "plain v2"
  shows "fst (set_kv (Str k) (Str v2) (snd (set_kv (Str k) (Str v1) d))) = Str v1"
    and "get (document_cookie (snd (set_kv (Str k) (Str v2)
           (snd (set_kv (Str k) (Str v1) d))))) (Str k) = Str v2"
    and "k \<notin> fst ` set (jar d) \<Longrightarrow> fst (set_kv (Str k) (Str v1) d) = Null"
proof -
  let ?d1 = "snd (set_kv (Str k) (Str v1) d)"
  let ?d2 = "snd (set_kv (Str k) (Str v2) ?d1)"
  have j1: "jar ?d1 = AList.update k v1 (jar d)"
    using assms by (simp add: jar_set_cookie_default plain_imp_wf_name plain_imp_wf_value)
  have wf1: "wf_jar (jar ?d1)"
    unfolding j1 using assms by (simp add: wf_jar_update plain_imp_wf_name plain_imp_wf_value)
  have j2: "jar ?d2 = AList.update k v2 (jar ?d1)"
    using assms by (simp add: jar_set_cookie_default plain_imp_wf_name plain_imp_wf_value)
  show "fst (set_kv (Str k) (Str v2) ?d1) = Str v1"
    unfolding fst_set_cookie document_cookie_def j1 using assms(1,2,3) by (rule get_update)
  show "get (document_cookie ?d2) (Str k) = Str v2"
    unfolding document_cookie_def j2 using wf1 assms(2,4) by (rule get_update)
  show "fst (set_kv (Str k) (Str v1) d) = Null" if "k \<notin> fst ` set (jar d)"
    unfolding fst_set_cookie document_cookie_def using assms(1) that by (rule get_absent)
qed

lemma unset_after_set_plain:
  assumes "wf_jar (jar d)" "plain k" "plain v"
  shows "fst (unset (Str k) (snd (set_kv (Str k) (Str v) d))) = Str v"
    and "get (document_cookie (snd (unset (Str k) (snd (set_kv (Str k) (Str v) d))))) (Str k) = Null"
proof -
  let ?d1 = "snd (set_kv (Str k) (Str v) d)"
  have j1: "jar ?d1 = AList.update k v (jar d)"
    using assms by (simp add: jar_set_cookie_default plain_imp_wf_name plain_imp_wf_value)
  have wf1: "wf_jar (jar ?d1)"
    unfolding j1 using assms by (simp add: wf_jar_update plain_imp_wf_name plain_imp_wf_value)
  show "fst (unset (Str k) ?d1) = Str v"
    unfolding fst_unset document_cookie_def j1 using assms by (rule get_update)
  show "get (document_cookie (snd (unset (Str k) ?d1))) (Str k) = Null"
    unfolding document_cookie_def jar_unset [OF plain_imp_wf_name [OF assms(2)]] using wf1
    by (rule get_delete)
qed

section \<open>The claims\<close>

text \<open>
  C1.  For every key \<open>k\<close> and value \<open>v\<close> free of the semicolon, of \<open>=\<close> and of white space,
  and every well-formed store: \<open>set(k, v)\<close> with the other arguments omitted, followed by
  \<open>get(k)\<close> on the string the host then yields, returns \<open>v\<close>.
\<close>

theorem set_then_get:
  assumes "wf_jar (jar d)" "plain k" "plain v"
  shows "get (document_cookie (snd (set_kv (Str k) (Str v) d))) (Str k) = Str v"
proof -
  have "jar (snd (set_kv (Str k) (Str v) d)) = AList.update k v (jar d)"
    using assms by (simp add: jar_set_cookie_default plain_imp_wf_name plain_imp_wf_value)
  then show ?thesis
    using get_update [OF assms] by (simp add: document_cookie_def)
qed

theorem set_then_get_witness:
  "wf_jar (jar \<lparr>jar = [(''x'', ''1 2=3'')], assigned = []\<rparr>) \<and> plain ''a'' \<and> plain ''b'' \<and>
   get (document_cookie (snd (set_kv (Str ''a'') (Str ''b'')
          \<lparr>jar = [(''x'', ''1 2=3'')], assigned = []\<rparr>))) (Str ''a'') = Str ''b''"
proof -
  have 1: "wf_jar (jar \<lparr>jar = [(''x'', ''1 2=3'')], assigned = []\<rparr>)"
    by (simp add: wf_jar_def wf_name_def wf_value_def no_edge_space_def is_space_def)
  have 2: "plain ''a''" and 3: "plain ''b''"
    by (simp_all add: plain_def is_space_def)
  from set_then_get [OF 1 2 3] 1 2 3 show ?thesis by simp
qed

text \<open>
  C2.  \<open>get\<close> splits a segment at every \<open>=\<close> and returns the second piece: for the
  cookie \<open>a=b=c\<close> it returns \<open>b\<close>, not the text \<open>b=c\<close> after the first \<open>=\<close>; the value that
  \<open>set("a", "b=c")\<close> stored comes back as \<open>b\<close>.
\<close>

theorem get_value_with_eq:
  "get ''a=b=c'' (Str ''a'') = Str ''b'' \<and>
   get (document_cookie (snd (set_kv (Str ''a'') (Str ''b=c'')
          \<lparr>jar = [], assigned = []\<rparr>))) (Str ''a'') = Str ''b''"
proof -
  have "get ''a=b=c'' (Str ''a'') = Str ''b''"
    by (simp add: get_def match_delimiter_def is_space_def index_def Let_def)
  moreover have "document_cookie (snd (set_kv (Str ''a'') (Str ''b=c'')
          \<lparr>jar = [], assigned = []\<rparr>)) = ''a=b=c''"
    by (simp add: set_cookie_def js_or_def Let_def assign_cookie_def zeroDate_toUTCString_def
        document_cookie_def)
  ultimately show ?thesis by simp
qed

text \<open>
  C3.  A segment with no \<open>=\<close> is not skipped.  On \<open>abc; abc=5\<close> the first segment ends
  the search of \<open>get("abc")\<close>, which returns \<open>undefined\<close>: neither the \<open>5\<close> of the second
  segment, which \<open>get\<close> returns once the first is gone, nor \<open>null\<close>.  On \<open>abc\<close>, \<open>getAll\<close>
  returns an object with the key \<open>abc\<close>.
\<close>

theorem segment_without_eq_is_read:
  "get ''abc; abc=5'' (Str ''abc'') = Undefined \<and>
   get ''abc=5'' (Str ''abc'') = Str ''5'' \<and>
   getAll ''abc'' = [(''abc'', Undefined)]"
proof -
  have "getAll ''abc'' = [(''abc'', Undefined)]"
    by (simp add: getAll_def assign_prop_def match_delimiter_def is_space_def index_def Let_def)
  moreover have "get ''abc; abc=5'' (Str ''abc'') = Undefined"
    by (simp add: get_def match_delimiter_def is_space_def index_def Let_def)
  moreover have "get ''abc=5'' (Str ''abc'') = Str ''5''"
    by (simp add: get_def match_delimiter_def is_space_def index_def Let_def)
  ultimately show ?thesis by simp
qed

text \<open>
  C4.  On \<open>k=1; k=b=c\<close> the last segment named \<open>k\<close> decides, but \<open>getAll\<close> maps \<open>k\<close> to
  \<open>b\<close>, the second piece of that segment, and not to its value \<open>b=c\<close>.  On
  \<open>__proto__=x; __proto__=y\<close> the name occurs twice and \<open>getAll\<close> returns the empty object.
\<close>

theorem getAll_value_with_eq:
  "getAll ''k=1; k=b=c'' = [(''k'', Str ''b'')] \<and>
   getAll ''__proto__=x; __proto__=y'' = []"
proof -
  have "getAll ''k=1; k=b=c'' = [(''k'', Str ''b'')]"
    by (simp add: getAll_def assign_prop_def match_delimiter_def is_space_def index_def Let_def)
  moreover have "getAll ''__proto__=x; __proto__=y'' = []"
    by (simp add: getAll_def assign_prop_def match_delimiter_def is_space_def index_def Let_def)
  ultimately show ?thesis by simp
qed

text \<open>
  C5.  After \<open>set("k", "b=c")\<close> on the empty store the host holds \<open>k=b=c\<close>, and
  \<open>set("k", "2")\<close> returns \<open>b\<close>, not the previous value \<open>b=c\<close>: the old value is read by
  \<open>get\<close>, which cuts it at its \<open>=\<close>.
\<close>

theorem set_twice_value_with_eq:
  "document_cookie (snd (set_kv (Str ''k'') (Str ''b=c'') \<lparr>jar = [], assigned = []\<rparr>)) = ''k=b=c'' \<and>
   fst (set_kv (Str ''k'') (Str ''2'')
     (snd (set_kv (Str ''k'') (Str ''b=c'') \<lparr>jar = [], assigned = []\<rparr>))) = Str ''b''"
proof -
  have 1: "snd (set_kv (Str ''k'') (Str ''b=c'') \<lparr>jar = [], assigned = []\<rparr>) =
      \<lparr>jar = [(''k'', ''b=c'')], assigned = [''k=b=c;path=/;'']\<rparr>"
    by (simp add: set_cookie_def js_or_def Let_def assign_cookie_def zeroDate_toUTCString_def)
  have 2: "get ''k=b=c'' (Str ''k'') = Str ''b''"
    by (simp add: get_def match_delimiter_def is_space_def index_def Let_def)
  show ?thesis
    unfolding 1 fst_set_cookie by (simp add: document_cookie_def 2)
qed

text \<open>
  C6.  After \<open>set("k", "b=c")\<close> on the empty store, \<open>unset("k")\<close> returns \<open>b\<close>, not the
  previous value \<open>b=c\<close>: the old value is read by \<open>get\<close>, which cuts it at its \<open>=\<close>.
\<close>

theorem unset_value_with_eq:
  "fst (unset (Str ''k'')
     (snd (set_kv (Str ''k'') (Str ''b=c'') \<lparr>jar = [], assigned = []\<rparr>))) = Str ''b''"
proof -
  have 1: "snd (set_kv (Str ''k'') (Str ''b=c'') \<lparr>jar = [], assigned = []\<rparr>) =
      \<lparr>jar = [(''k'', ''b=c'')], assigned = [''k=b=c;path=/;'']\<rparr>"
    by (simp add: set_cookie_def js_or_def Let_def assign_cookie_def zeroDate_toUTCString_def)
  have 2: "get ''k=b=c'' (Str ''k'') = Str ''b''"
    by (simp add: get_def match_delimiter_def is_space_def index_def Let_def)
  show ?thesis
    unfolding 1 fst_unset by (simp add: document_cookie_def 2)
qed

text \<open>
  C7.  The string that \<open>set\<close> assigns is \<open>key=value;path=<path>;\<close> followed by
  \<open>expires=...;\<close>, \<open>max-age=...;\<close>, \<open>domain=...;\<close>, \<open>secure;\<close> and \<open>samesite;\<close> in this order,
  each present exactly when its argument is truthy.  \<open>setAsArray\<close> assigns one such string
  per entry of the array, in the order of the array, built from the properties \<open>key\<close>,
  \<open>value\<close>, \<open>path\<close>, \<open>expires\<close>, \<open>maxAge\<close>, \<open>domain\<close>, \<open>secure\<close> and \<open>samesite\<close> of the entry;
  for the one entry with key \<open>x\<close>, value \<open>5\<close> and \<open>secure\<close> true it assigns
  \<open>x=5;path=/;secure;\<close>.
\<close>

theorem set_attribute_string:
  "assigned (snd (set_cookie key val path expires maxAge domain secure samesite d)) =
     assigned d @
       [to_string key @ ''='' @ to_string val @
        '';path='' @ (if truthy path then to_string path else ''/'') @ '';'' @
        (if truthy expires then ''expires='' @ to_string expires @ '';'' else []) @
        (if truthy maxAge then ''max-age='' @ to_string maxAge @ '';'' else []) @
        (if truthy domain then ''domain='' @ to_string domain @ '';'' else []) @
        (if truthy secure then ''secure;'' else []) @
        (if truthy samesite then ''samesite;'' else [])] \<and>
   assigned (setAsArray array d) =
     assigned d @
       map (\<lambda>curObject.
          to_string (js_prop curObject ''key'') @ ''='' @ to_string (js_prop curObject ''value'') @
          '';path='' @ (if truthy (js_prop curObject ''path'')
                        then to_string (js_prop curObject ''path'') else ''/'') @ '';'' @
          (if truthy (js_prop curObject ''expires'')
           then ''expires='' @ to_string (js_prop curObject ''expires'') @ '';'' else []) @
          (if truthy (js_prop curObject ''maxAge'')
           then ''max-age='' @ to_string (js_prop curObject ''maxAge'') @ '';'' else []) @
          (if truthy (js_prop curObject ''domain'')
           then ''domain='' @ to_string (js_prop curObject ''domain'') @ '';'' else []) @
          (if truthy (js_prop curObject ''secure'') then ''secure;'' else []) @
          (if truthy (js_prop curObject ''samesite'') then ''samesite;'' else []))
        array \<and>
   assigned (setAsArray [[(''key'', Str ''x''), (''value'', Str ''5''), (''secure'', Bool True)]] d)
     = assigned d @ [''x=5;path=/;secure;'']"
proof -
  have "assigned (setAsArray [[(''key'', Str ''x''), (''value'', Str ''5''), (''secure'', Bool True)]] d)
     = assigned d @ [''x=5;path=/;secure;'']"
    by (simp add: setAsArray_def set_cookie_def js_prop_def js_or_def Let_def assigned_assign_cookie)
  moreover note assigned_set_cookie [of key val path expires maxAge domain secure samesite d]
  moreover have "assigned (setAsArray array d) = assigned d @ map attribute_string_of array"
    by (rule assigned_setAsArray)
  ultimately show ?thesis by (simp add: attribute_string_of_def)
qed

text \<open>
  C8.  \<open>clear\<close> reads \<open>getAll()\<close> once and assigns one expired cookie per key of that
  object, each key once, in the order of the \<open>for\<close>-\<open>in\<close> loop.  On a well-formed store
  \<open>getAll()\<close> is then empty, in particular after \<open>setAsMap\<close> of the object with \<open>a\<close> mapped
  to \<open>1\<close> and \<open>b\<close> mapped to \<open>2\<close>.
\<close>

theorem clear_removes_all:
  assumes "wf_jar (jar d)"
  shows "assigned (clear d) =
           assigned d @ map (\<lambda>key. key @ ''=;expires=Thu, 01 Jan 1970 00:00:00 GMT;path=/'')
                            (for_in_keys (getAll (document_cookie d))) \<and>
         set (for_in_keys (getAll (document_cookie d))) = fst ` set (getAll (document_cookie d)) \<and>
         distinct (for_in_keys (getAll (document_cookie d))) \<and>
         getAll (document_cookie (clear d)) = [] \<and>
         getAll (document_cookie (clear (setAsMap [(''a'', Str ''1''), (''b'', Str ''2'')] d))) = []"
proof -
  have a: "wf_name ''a''" and b: "wf_name ''b''" and 1: "wf_value ''1''" and 2: "wf_value ''2''"
    by (simp_all add: wf_name_def wf_value_def no_edge_space_def is_space_def)
  have "wf_jar (jar (setAsMap [(''a'', Str ''1''), (''b'', Str ''2'')] d))"
    unfolding jar_setAsMap_ab using assms a b 1 2 by (simp add: wf_jar_update)
  then have "getAll (document_cookie (clear (setAsMap [(''a'', Str ''1''), (''b'', Str ''2'')] d))) = []"
    by (rule getAll_clear)
  moreover have "getAll (document_cookie (clear d)) = []" using assms by (rule getAll_clear)
  moreover have "assigned (clear d) =
           assigned d @ map (\<lambda>key. key @ ''=;expires=Thu, 01 Jan 1970 00:00:00 GMT;path=/'')
                            (for_in_keys (getAll (document_cookie d)))"
    by (simp add: clear_def Let_def assigned_fold_unset)
  ultimately show ?thesis
    by (simp add: distinct_keys_getAll distinct_for_in_keys set_for_in_keys)
qed

theorem clear_removes_all_witness:
  "wf_jar (jar \<lparr>jar = [(''__proto__'', ''p''), (''x'', ''1'')], assigned = []\<rparr>) \<and>
   getAll (document_cookie (setAsMap [(''a'', Str ''1''), (''b'', Str ''2'')]
      \<lparr>jar = [(''__proto__'', ''p''), (''x'', ''1'')], assigned = []\<rparr>)) =
     [(''x'', Str ''1''), (''a'', Str ''1''), (''b'', Str ''2'')] \<and>
   assigned (clear (setAsMap [(''a'', Str ''1''), (''b'', Str ''2'')]
      \<lparr>jar = [(''__proto__'', ''p''), (''x'', ''1'')], assigned = []\<rparr>)) =
     [''a=1;path=/;'', ''b=2;path=/;'',
      ''x=;expires=Thu, 01 Jan 1970 00:00:00 GMT;path=/'',
      ''a=;expires=Thu, 01 Jan 1970 00:00:00 GMT;path=/'',
      ''b=;expires=Thu, 01 Jan 1970 00:00:00 GMT;path=/''] \<and>
   getAll (document_cookie (clear
      \<lparr>jar = [(''__proto__'', ''p''), (''x'', ''1'')], assigned = []\<rparr>)) = [] \<and>
   getAll (document_cookie (clear (setAsMap [(''a'', Str ''1''), (''b'', Str ''2'')]
      \<lparr>jar = [(''__proto__'', ''p''), (''x'', ''1'')], assigned = []\<rparr>))) = []"
proof -
  let ?d = "\<lparr>jar = [(''__proto__'', ''p''), (''x'', ''1'')], assigned = []\<rparr>"
  let ?ab = "[(''a'', Str ''1''), (''b'', Str ''2'')]"
  have 1: "wf_jar (jar ?d)"
    by (simp add: wf_jar_def wf_name_def wf_value_def no_edge_space_def is_space_def)
  have 2: "getAll (document_cookie (setAsMap ?ab ?d)) =
      [(''x'', Str ''1''), (''a'', Str ''1''), (''b'', Str ''2'')]"
    by (simp add: jar_setAsMap_ab document_cookie_def getAll_def assign_prop_def
        match_delimiter_def is_space_def index_def Let_def)
  have keys: "for_in_keys [(''x'', Str ''1''), (''a'', Str ''1''), (''b'', Str ''2'')] =
      [''x'', ''a'', ''b'']"
    by (simp add: for_in_keys_def is_array_index_def is_digit_def)
  have "assigned (setAsMap ?ab ?d) = [''a=1;path=/;'', ''b=2;path=/;'']"
    by (simp add: setAsMap_def for_in_keys_ab js_prop_def set_cookie_default assigned_assign_cookie)
  then have 3: "assigned (clear (setAsMap ?ab ?d)) =
     [''a=1;path=/;'', ''b=2;path=/;'',
      ''x=;expires=Thu, 01 Jan 1970 00:00:00 GMT;path=/'',
      ''a=;expires=Thu, 01 Jan 1970 00:00:00 GMT;path=/'',
      ''b=;expires=Thu, 01 Jan 1970 00:00:00 GMT;path=/'']"
    by (simp add: clear_def Let_def assigned_unset 2 keys)
  from clear_removes_all [OF 1] 1 2 3 show ?thesis by blast
qed

text \<open>
  C9.  On \<open>a=1; b=2;c=3\<close>, \<open>getAll\<close> returns the object with \<open>a\<close>, \<open>b\<close> and \<open>c\<close> mapped to
  \<open>1\<close>, \<open>2\<close> and \<open>3\<close>, \<open>get("b")\<close> returns \<open>2\<close> and \<open>get("z")\<close> returns \<open>null\<close>.
\<close>

theorem scenario_three_cookies:
  "getAll ''a=1; b=2;c=3'' = [(''a'', Str ''1''), (''b'', Str ''2''), (''c'', Str ''3'')] \<and>
   get ''a=1; b=2;c=3'' (Str ''b'') = Str ''2'' \<and>
   get ''a=1; b=2;c=3'' (Str ''z'') = Null"
proof -
  have "getAll ''a=1; b=2;c=3'' = [(''a'', Str ''1''), (''b'', Str ''2''), (''c'', Str ''3'')]"
    by (simp add: getAll_def assign_prop_def match_delimiter_def is_space_def index_def Let_def)
  moreover have "get ''a=1; b=2;c=3'' (Str ''b'') = Str ''2''"
    by (simp add: get_def match_delimiter_def is_space_def index_def Let_def)
  moreover have "get ''a=1; b=2;c=3'' (Str ''z'') = Null"
    by (simp add: get_def match_delimiter_def is_space_def index_def Let_def)
  ultimately show ?thesis by simp
qed

text \<open>
  C10.  A falsy option argument of \<open>set\<close> acts as an omitted one: the result and the
  string assigned are those of the call with \<open>undefined\<close> in its place.  With the empty
  string as path and falsy values for the other options, the string is \<open>k=v;path=/;\<close>.
\<close>

theorem set_falsy_options:
  "set_cookie key val path expires maxAge domain secure samesite d =
   set_cookie key val
     (if truthy path then path else Undefined)
     (if truthy expires then expires else Undefined)
     (if truthy maxAge then maxAge else Undefined)
     (if truthy domain then domain else Undefined)
     (if truthy secure then secure else Undefined)
     (if truthy samesite then samesite else Undefined) d \<and>
   assigned (snd (set_cookie (Str ''k'') (Str ''v'') (Str []) (Num 0) (Str []) (Num 0) (Bool False) Null d))
     = assigned d @ [''k=v;path=/;'']"
proof -
  have "set_cookie key val path expires maxAge domain secure samesite d =
   set_cookie key val
     (if truthy path then path else Undefined)
     (if truthy expires then expires else Undefined)
     (if truthy maxAge then maxAge else Undefined)
     (if truthy domain then domain else Undefined)
     (if truthy secure then secure else Undefined)
     (if truthy samesite then samesite else Undefined) d"
    by (simp add: set_cookie_def js_or_def Let_def)
  moreover have "assigned (snd (set_cookie (Str ''k'') (Str ''v'') (Str []) (Num 0) (Str [])
      (Num 0) (Bool False) Null d)) = assigned d @ [''k=v;path=/;'']"
    by (simp add: set_cookie_def js_or_def Let_def assigned_assign_cookie)
  ultimately show ?thesis by simp
qed

end
